theory Spec2Isabelle
  imports Complex_Main "HOL-Library.Word"
begin

section \<open>Data model\<close>

text \<open>
  The dataset of \<^verbatim>\<open>interface MeshData\<close> (page and viewer declare the same shape).
  JavaScript numbers are modelled exactly: coordinates, times, progress values and the
  playback speed as \<open>real\<close>, indices and counters as \<open>int\<close>. A point is the
  triple \<open>(p[0], p[1], p[2])\<close> and a triangle the triple \<open>(t[0], t[1], t[2])\<close>.
\<close>

type_synonym point = "real \<times> real \<times> real"

type_synonym triangle = "int \<times> int \<times> int"

record timestep_data =
  index :: int
  time :: real
  points :: "point list"
  triangles :: "triangle list"

record mesh_metadata =
  total_timesteps :: int
  exported_timesteps :: int
  time_range :: "real \<times> real"

record mesh_data =
  timesteps :: "timestep_data list"
  metadata :: mesh_metadata

datatype color_mode = Height | Curvature | Solid

text \<open>The \<^verbatim>\<open>useState\<close> cells of the \<^verbatim>\<open>Home\<close> component, with their initial values.\<close>

record home_state =
  data :: "mesh_data option"
  loading :: bool
  loadProgress :: real
  error :: "string option"
  currentIndex :: int
  isPlaying :: bool
  playbackSpeed :: real
  autoRotate :: bool
  showWireframe :: bool
  colorMode :: color_mode

definition Home_init :: home_state where
  "Home_init =
     \<lparr>data = None, loading = True, loadProgress = 0, error = None,
      currentIndex = 0, isPlaying = False, playbackSpeed = 1,
      autoRotate = True, showWireframe = False, colorMode = Height\<rparr>"

section \<open>Playback: state setters, timer, keyboard and controls\<close>

text \<open>The setters returned by \<^verbatim>\<open>useState\<close> store their argument as it is.\<close>

definition setCurrentIndex :: "int \<Rightarrow> home_state \<Rightarrow> home_state" where
  "setCurrentIndex i s = s\<lparr>currentIndex := i\<rparr>"

definition setIsPlaying :: "bool \<Rightarrow> home_state \<Rightarrow> home_state" where
  "setIsPlaying b s = s\<lparr>isPlaying := b\<rparr>"

definition setPlaybackSpeed :: "real \<Rightarrow> home_state \<Rightarrow> home_state" where
  "setPlaybackSpeed v s = s\<lparr>playbackSpeed := v\<rparr>"

definition setAutoRotate :: "bool \<Rightarrow> home_state \<Rightarrow> home_state" where
  "setAutoRotate b s = s\<lparr>autoRotate := b\<rparr>"

definition setShowWireframe :: "bool \<Rightarrow> home_state \<Rightarrow> home_state" where
  "setShowWireframe b s = s\<lparr>showWireframe := b\<rparr>"

definition setColorMode :: "color_mode \<Rightarrow> home_state \<Rightarrow> home_state" where
  "setColorMode m s = s\<lparr>colorMode := m\<rparr>"

text \<open>\<^verbatim>\<open>data.timesteps.length\<close> and the last valid index \<^verbatim>\<open>data.timesteps.length - 1\<close>.\<close>

definition totalFrames :: "mesh_data \<Rightarrow> int" where
  "totalFrames d = int (length (timesteps d))"

definition lastIndex :: "mesh_data \<Rightarrow> int" where
  "lastIndex d = totalFrames d - 1"

text \<open>
  The animation effect arms an interval only while playing with a dataset loaded; its
  period is \<^verbatim>\<open>100 / playbackSpeed\<close> milliseconds. \<open>None\<close> is the early return of the
  effect (no timer). The quotient is the JavaScript one for a speed other than \<open>0\<close>; the
  speed selector offers \<open>0.25\<close>, \<open>0.5\<close>, \<open>1\<close>, \<open>2\<close> and \<open>4\<close>.
\<close>

definition animation_interval :: "home_state \<Rightarrow> real option" where
  "animation_interval s =
     (case data s of
        None \<Rightarrow> None
      | Some d \<Rightarrow> if isPlaying s then Some (100 / playbackSpeed s) else None)"

text \<open>
  The interval's callback: the updater passed to \<^verbatim>\<open>setCurrentIndex\<close>, which also
  calls \<^verbatim>\<open>setIsPlaying(false)\<close> and keeps \<open>prev\<close> when \<open>prev + 1\<close> reaches the
  number of timesteps.
\<close>

definition interval_callback :: "mesh_data \<Rightarrow> home_state \<Rightarrow> home_state" where
  "interval_callback d s =
     (let prev = currentIndex s; next = prev + 1
      in if next \<ge> totalFrames d then setCurrentIndex prev (setIsPlaying False s)
         else setCurrentIndex next s)"

text \<open>One firing of the timer: nothing happens when no interval is armed.\<close>

definition timer_fire :: "home_state \<Rightarrow> home_state" where
  "timer_fire s =
     (case data s of
        None \<Rightarrow> s
      | Some d \<Rightarrow> if isPlaying s then interval_callback d s else s)"

text \<open>\<^verbatim>\<open>handleKeyDown\<close>, on the value of \<^verbatim>\<open>e.key\<close>.\<close>

definition handleKeyDown :: "string \<Rightarrow> home_state \<Rightarrow> home_state" where
  "handleKeyDown key s =
     (case data s of
        None \<Rightarrow> s
      | Some d \<Rightarrow>
          if key = '' '' then setIsPlaying (\<not> isPlaying s) s
          else if key = ''ArrowLeft'' then setCurrentIndex (max 0 (currentIndex s - 1)) s
          else if key = ''ArrowRight'' then
            setCurrentIndex (min (totalFrames d - 1) (currentIndex s + 1)) s
          else if key = ''Home'' then setCurrentIndex 0 s
          else if key = ''End'' then setCurrentIndex (totalFrames d - 1) s
          else if key = ''r'' then setAutoRotate (\<not> autoRotate s) s
          else if key = ''w'' then setShowWireframe (\<not> showWireframe s) s
          else s)"

text \<open>
  The \<^verbatim>\<open>Controls\<close> component, wired by \<^verbatim>\<open>Home\<close>: \<^verbatim>\<open>onIndexChange\<close> is
  \<^verbatim>\<open>setCurrentIndex\<close> itself. The slider hands over the integer it holds; the reset
  and end buttons pass \<open>0\<close> and \<^verbatim>\<open>totalFrames - 1\<close>.
\<close>

definition onIndexChange :: "int \<Rightarrow> home_state \<Rightarrow> home_state" where
  "onIndexChange i s = setCurrentIndex i s"

datatype control_event =
    SliderChange int
  | ResetClick
  | PlayClick
  | EndClick
  | SpeedChange real
  | AutoRotateClick
  | WireframeClick
  | ColorModeClick color_mode

fun Controls :: "mesh_data \<Rightarrow> control_event \<Rightarrow> home_state \<Rightarrow> home_state" where
  "Controls d (SliderChange v) s = onIndexChange v s"
| "Controls d ResetClick s = onIndexChange 0 s"
| "Controls d PlayClick s = setIsPlaying (\<not> isPlaying s) s"
| "Controls d EndClick s = onIndexChange (totalFrames d - 1) s"
| "Controls d (SpeedChange v) s = setPlaybackSpeed v s"
| "Controls d AutoRotateClick s = setAutoRotate (\<not> autoRotate s) s"
| "Controls d WireframeClick s = setShowWireframe (\<not> showWireframe s) s"
| "Controls d (ColorModeClick m) s = setColorMode m s"

text \<open>
  The range input is rendered with \<^verbatim>\<open>min={0}\<close> and \<^verbatim>\<open>max={totalFrames - 1}\<close>, so the
  values a drag can deliver are the integers of that interval.
\<close>

definition slider_value :: "mesh_data \<Rightarrow> int \<Rightarrow> bool" where
  "slider_value d v = (0 \<le> v \<and> v \<le> totalFrames d - 1)"

text \<open>
  The states of a session that shows dataset \<open>d\<close>: the initial cells with the dataset
  stored by the loader, then any sequence of key presses, control events (slider values
  within the slider's range) and timer firings. The loader's own cells may hold anything.
\<close>

fun allowed :: "mesh_data \<Rightarrow> control_event \<Rightarrow> bool" where
  "allowed d (SliderChange v) = slider_value d v"
| "allowed d ev = True"

inductive reachable :: "mesh_data \<Rightarrow> home_state \<Rightarrow> bool" for d :: mesh_data where
  loaded: "reachable d (Home_init\<lparr>data := Some d, loading := l, loadProgress := p\<rparr>)"
| key: "reachable d s \<Longrightarrow> reachable d (handleKeyDown k s)"
| control: "reachable d s \<Longrightarrow> allowed d ev \<Longrightarrow> reachable d (Controls d ev s)"
| timer: "reachable d s \<Longrightarrow> reachable d (timer_fire s)"

section \<open>Attribute derivation: the geometry of \<^verbatim>\<open>CellMesh\<close>\<close>

text \<open>
  The numbers of the derivation. A JavaScript number is a binary64 value: \<^verbatim>\<open>NaN\<close>, an
  infinity, or a real. An arithmetic result whose magnitude reaches
  \<open>2 ^ 1024 - 2 ^ 970\<close> (the largest binary64 number plus half a unit in its last
  place) is an infinity. Within the range the binary64 operations and literals are taken
  without rounding, and the sign of zero is not modelled.
\<close>

datatype number = NaN | NegInfinity | Finite real | Infinity

definition overflow64 :: real where
  "overflow64 = 2 ^ 1024 - 2 ^ 970"

definition binary64 :: "real \<Rightarrow> number" where
  "binary64 x =
     (if overflow64 \<le> x then Infinity
      else if x \<le> - overflow64 then NegInfinity
      else Finite x)"

text \<open>The infinity of the sign of \<open>s\<close>; \<^verbatim>\<open>NaN\<close> for \<open>0\<close> (as in \<open>Infinity * 0\<close> and \<open>0 / 0\<close>).\<close>

definition signed_infinity :: "real \<Rightarrow> number" where
  "signed_infinity s = (if 0 < s then Infinity else if s < 0 then NegInfinity else NaN)"

fun num_neg :: "number \<Rightarrow> number" where
  "num_neg NaN = NaN"
| "num_neg NegInfinity = Infinity"
| "num_neg (Finite a) = Finite (- a)"
| "num_neg Infinity = NegInfinity"

fun num_add :: "number \<Rightarrow> number \<Rightarrow> number" where
  "num_add NaN b = NaN"
| "num_add a NaN = NaN"
| "num_add Infinity NegInfinity = NaN"
| "num_add NegInfinity Infinity = NaN"
| "num_add Infinity b = Infinity"
| "num_add a Infinity = Infinity"
| "num_add NegInfinity b = NegInfinity"
| "num_add a NegInfinity = NegInfinity"
| "num_add (Finite a) (Finite b) = binary64 (a + b)"

definition num_sub :: "number \<Rightarrow> number \<Rightarrow> number" where
  "num_sub a b = num_add a (num_neg b)"

fun num_mul :: "number \<Rightarrow> number \<Rightarrow> number" where
  "num_mul NaN b = NaN"
| "num_mul a NaN = NaN"
| "num_mul Infinity Infinity = Infinity"
| "num_mul Infinity NegInfinity = NegInfinity"
| "num_mul NegInfinity Infinity = NegInfinity"
| "num_mul NegInfinity NegInfinity = Infinity"
| "num_mul Infinity (Finite b) = signed_infinity b"
| "num_mul NegInfinity (Finite b) = signed_infinity (- b)"
| "num_mul (Finite a) Infinity = signed_infinity a"
| "num_mul (Finite a) NegInfinity = signed_infinity (- a)"
| "num_mul (Finite a) (Finite b) = binary64 (a * b)"

fun num_div :: "number \<Rightarrow> number \<Rightarrow> number" where
  "num_div NaN b = NaN"
| "num_div a NaN = NaN"
| "num_div Infinity Infinity = NaN"
| "num_div Infinity NegInfinity = NaN"
| "num_div NegInfinity Infinity = NaN"
| "num_div NegInfinity NegInfinity = NaN"
| "num_div Infinity (Finite b) = (if 0 \<le> b then Infinity else NegInfinity)"
| "num_div NegInfinity (Finite b) = (if 0 \<le> b then NegInfinity else Infinity)"
| "num_div (Finite a) Infinity = Finite 0"
| "num_div (Finite a) NegInfinity = Finite 0"
| "num_div (Finite a) (Finite b) = (if b = 0 then signed_infinity a else binary64 (a / b))"

text \<open>\<^verbatim>\<open>Math.abs\<close>, \<^verbatim>\<open>Math.sqrt\<close> and \<^verbatim>\<open>Math.min\<close>.\<close>

fun num_abs :: "number \<Rightarrow> number" where
  "num_abs NaN = NaN"
| "num_abs NegInfinity = Infinity"
| "num_abs (Finite a) = Finite \<bar>a\<bar>"
| "num_abs Infinity = Infinity"

fun num_sqrt :: "number \<Rightarrow> number" where
  "num_sqrt NaN = NaN"
| "num_sqrt NegInfinity = NaN"
| "num_sqrt (Finite a) = (if a < 0 then NaN else Finite (sqrt a))"
| "num_sqrt Infinity = Infinity"

fun num_min :: "number \<Rightarrow> number \<Rightarrow> number" where
  "num_min NaN b = NaN"
| "num_min a NaN = NaN"
| "num_min NegInfinity b = NegInfinity"
| "num_min a NegInfinity = NegInfinity"
| "num_min Infinity b = b"
| "num_min a Infinity = a"
| "num_min (Finite a) (Finite b) = Finite (min a b)"

text \<open>Truthiness of a number, for \<^verbatim>\<open>||\<close>: \<open>0\<close> and \<^verbatim>\<open>NaN\<close> are falsy.\<close>

fun truthy :: "number \<Rightarrow> bool" where
  "truthy NaN = False"
| "truthy (Finite a) = (a \<noteq> 0)"
| "truthy NegInfinity = True"
| "truthy Infinity = True"

text \<open>
  Storing into a \<^verbatim>\<open>Float32Array\<close> rounds to binary32: to the nearest number with a
  24-bit significand, ties to the even one, the exponent not below \<open>-126\<close>; a magnitude
  that reaches \<open>2 ^ 128 - 2 ^ 103\<close> becomes an infinity. \<open>rne\<close> rounds a real to the
  nearest integer, ties to even.
\<close>

definition rne :: "real \<Rightarrow> int" where
  "rne y =
     (let f = \<lfloor>y\<rfloor>; d = y - of_int f
      in if d < 1 / 2 then f
         else if 1 / 2 < d then f + 1
         else if even f then f
         else f + 1)"

definition fround :: "real \<Rightarrow> real" where
  "fround x =
     (let e = max \<lfloor>log 2 \<bar>x\<bar>\<rfloor> (- 126);
          q = 2 powr (of_int e - 23)
      in of_int (rne (x / q)) * q)"

definition overflow32 :: real where
  "overflow32 = 2 ^ 128 - 2 ^ 103"

fun store32 :: "number \<Rightarrow> number" where
  "store32 NaN = NaN"
| "store32 NegInfinity = NegInfinity"
| "store32 Infinity = Infinity"
| "store32 (Finite x) =
     (if overflow32 \<le> x then Infinity
      else if x \<le> - overflow32 then NegInfinity
      else Finite (fround x))"

text \<open>
  The three buffers handed to the renderer. \<^verbatim>\<open>Uint32Array\<close> reduces every integer
  modulo \<open>2 ^ 32\<close>. The callback of \<^verbatim>\<open>useMemo\<close> has no \<^verbatim>\<open>throw\<close> and no early return,
  so it is a total function of the timestep and the colour mode. The normals are computed
  by the rendering library from these buffers and are not part of the model.
\<close>

record buffer_geometry =
  positions :: "number list"
  indices :: "32 word list"
  colors :: "number list"

definition Float32Array :: "real list \<Rightarrow> number list" where
  "Float32Array xs = map (\<lambda>x. store32 (Finite x)) xs"

definition Uint32Array :: "int list \<Rightarrow> 32 word list" where
  "Uint32Array xs = map word_of_int xs"

text \<open>The two flattening loops: every iteration pushes three numbers.\<close>

definition posArray :: "timestep_data \<Rightarrow> real list" where
  "posArray ts = fold (\<lambda>(x, y, z) acc. acc @ [x, y, z]) (points ts) []"

definition idxArray :: "timestep_data \<Rightarrow> int list" where
  "idxArray ts = fold (\<lambda>(a, b, c) acc. acc @ [a, b, c]) (triangles ts) []"

text \<open>
  The scan for the extrema starts from \<^verbatim>\<open>Infinity\<close> and \<^verbatim>\<open>-Infinity\<close>; each point
  replaces a bound it beats. A comparison with \<^verbatim>\<open>NaN\<close> is false.
\<close>

fun below :: "real \<Rightarrow> number \<Rightarrow> bool" where
  "below z NaN = False"
| "below z NegInfinity = False"
| "below z (Finite m) = (z < m)"
| "below z Infinity = True"

fun above :: "real \<Rightarrow> number \<Rightarrow> bool" where
  "above z NaN = False"
| "above z NegInfinity = True"
| "above z (Finite m) = (z > m)"
| "above z Infinity = False"

definition z_scan_step :: "point \<Rightarrow> number \<times> number \<Rightarrow> number \<times> number" where
  "z_scan_step p acc =
     (case p of (x, y, z) \<Rightarrow>
      case acc of (zMin, zMax) \<Rightarrow>
        (if below z zMin then Finite z else zMin,
         if above z zMax then Finite z else zMax))"

definition z_scan :: "point list \<Rightarrow> number \<times> number" where
  "z_scan ps = fold z_scan_step ps (Infinity, NegInfinity)"

text \<open>\<^verbatim>\<open>zMax - zMin || 1\<close>: a falsy difference is replaced by \<open>1\<close>.\<close>

definition zRange :: "number \<Rightarrow> number \<Rightarrow> number" where
  "zRange zMin zMax =
     (let d = num_sub zMax zMin in if truthy d then d else Finite 1)"

text \<open>
  The three numbers the \<^verbatim>\<open>forEach\<close> body computes for one point; \<^verbatim>\<open>point[0] ** 2\<close> is
  the product of the coordinate with itself.
\<close>

fun vertex_color ::
  "color_mode \<Rightarrow> number \<Rightarrow> number \<Rightarrow> point \<Rightarrow> number \<times> number \<times> number" where
  "vertex_color mode zMin zR (x, y, z) =
     (let t = num_div (num_sub (Finite z) zMin) zR
      in if mode = Height then
           (num_add (num_mul t (Finite 0.9)) (Finite 0.1),
            num_add (Finite 0.3)
              (num_mul (Finite 0.4)
                 (num_sub (Finite 1) (num_mul (num_abs (num_sub t (Finite 0.5))) (Finite 2)))),
            num_add (num_mul (num_sub (Finite 1) t) (Finite 0.9)) (Finite 0.1))
         else if mode = Curvature then
           (let r = num_sqrt (num_add (num_mul (Finite x) (Finite x))
                                      (num_mul (Finite y) (Finite y)));
                rNorm = num_min (num_div r (Finite 1.2)) (Finite 1)
            in (num_add (Finite 0.2) (num_mul rNorm (Finite 0.7)),
                num_sub (Finite 0.8) (num_mul rNorm (Finite 0.5)),
                num_sub (Finite 0.9) (num_mul rNorm (Finite 0.6))))
         else (Finite 0.3, Finite 0.7, Finite 0.9))"

text \<open>
  One iteration of the \<^verbatim>\<open>forEach\<close>: three stores at \<open>i * 3\<close>, \<open>i * 3 + 1\<close>,
  \<open>i * 3 + 2\<close>.
\<close>

definition write_vertex ::
  "color_mode \<Rightarrow> number \<Rightarrow> number \<Rightarrow> nat \<times> point \<Rightarrow> number list \<Rightarrow> number list" where
  "write_vertex mode zMin zR ip buf =
     (case ip of (i, point) \<Rightarrow>
      case vertex_color mode zMin zR point of (r, g, b) \<Rightarrow>
        buf[i * 3 := store32 r, i * 3 + 1 := store32 g, i * 3 + 2 := store32 b])"

text \<open>
  The colour buffer is allocated with \<^verbatim>\<open>points.length * 3\<close> zeros and filled by the
  \<^verbatim>\<open>forEach\<close>.
\<close>

definition colors_of :: "timestep_data \<Rightarrow> color_mode \<Rightarrow> number list" where
  "colors_of ts mode =
     (let buf = replicate (length (points ts) * 3) (Finite 0)
      in case z_scan (points ts) of (zMin, zMax) \<Rightarrow>
           fold (write_vertex mode zMin (zRange zMin zMax)) (enumerate 0 (points ts)) buf)"

definition geometry :: "timestep_data \<Rightarrow> color_mode \<Rightarrow> buffer_geometry" where
  "geometry ts mode =
     \<lparr>positions = Float32Array (posArray ts),
      indices = Uint32Array (idxArray ts),
      colors = colors_of ts mode\<rparr>"

text \<open>A triangle is valid for a timestep when its three components index a point.\<close>

definition valid_index :: "timestep_data \<Rightarrow> int \<Rightarrow> bool" where
  "valid_index ts k = (0 \<le> k \<and> k < int (length (points ts)))"

fun valid_triangle :: "timestep_data \<Rightarrow> triangle \<Rightarrow> bool" where
  "valid_triangle ts (a, b, c) = (valid_index ts a \<and> valid_index ts b \<and> valid_index ts c)"

section \<open>Loading: \<^verbatim>\<open>loadData\<close>\<close>

text \<open>
  What \<^verbatim>\<open>fetch\<close> hands back. \<open>content_length\<close> is what
  \<^verbatim>\<open>contentLength ? parseInt(contentLength) : 0\<close> sees: no header (or an empty one), a
  header that parses to \<^verbatim>\<open>NaN\<close>, or a declared integer. \<open>has_body\<close> tells whether
  \<^verbatim>\<open>response.body\<close> is a stream, and \<open>body\<close> lists the chunks the stream delivers
  before it reports \<^verbatim>\<open>done\<close>.
\<close>

type_synonym chunk = "8 word list"

datatype content_length = Absent | NotANumber | Declared int

record response =
  ok :: bool
  status :: nat
  content_length :: content_length
  has_body :: bool
  body :: "chunk list"

text \<open>
  A thrown value: an \<^verbatim>\<open>Error\<close> object with its message, or anything else. The
  \<^verbatim>\<open>catch\<close> block reads the message of the former only.
\<close>

datatype thrown = ErrorObject string | OtherValue

text \<open>
  The actions of \<^verbatim>\<open>loadData\<close>, in program order: state updates, the request, the
  console message, the timer, and the two calls that parse the payload
  (\<^verbatim>\<open>JSON.parse\<close> on the assembled bytes, or \<^verbatim>\<open>response.json()\<close> in the fallback).
\<close>

datatype effect =
    SetLoadProgress real
  | Fetch string
  | SetData mesh_data
  | SetError string
  | SetLoading bool
  | ConsoleError thrown
  | SetTimeout effect nat
  | JSONParse chunk
  | ResponseJson

text \<open>Decimal rendering of \<^verbatim>\<open>response.status\<close> inside the template literal.\<close>

definition digit :: "nat \<Rightarrow> char" where
  "digit k = ''0123456789'' ! k"

fun string_of_nat :: "nat \<Rightarrow> string" where
  "string_of_nat n =
     (if n < 10 then [digit n] else string_of_nat (n div 10) @ [digit (n mod 10)])"

declare string_of_nat.simps [simp del]

text \<open>The value of \<^verbatim>\<open>total\<close> (written \<open>total'\<close> below); \<open>None\<close> stands for \<^verbatim>\<open>NaN\<close>.\<close>

fun total_of :: "content_length \<Rightarrow> int option" where
  "total_of Absent = Some 0"
| "total_of NotANumber = None"
| "total_of (Declared n) = Some n"

text \<open>
  The \<^verbatim>\<open>while (true)\<close> loop over \<^verbatim>\<open>reader.read()\<close>: one progress report per chunk,
  from the bytes received so far. It returns the reports and the final byte count.
\<close>

fun read_loop :: "int \<Rightarrow> chunk list \<Rightarrow> nat \<Rightarrow> effect list \<times> nat" where
  "read_loop total' [] received = ([], received)"
| "read_loop total' (v # rest) received =
     (let received' = received + length v;
          (es, n) = read_loop total' rest received'
      in (SetLoadProgress (10 + (real received' / real_of_int total') * 80) # es, n))"

text \<open>
  The body of the \<^verbatim>\<open>try\<close> block: the actions performed and, when it throws, the value
  thrown. \<open>parse\<close> stands for decoding the bytes and \<^verbatim>\<open>JSON.parse\<close> (in the fallback,
  \<^verbatim>\<open>response.json()\<close>): \<open>Inl\<close> is the exception of a malformed payload. An outcome
  \<open>Inl\<close> is a rejected \<^verbatim>\<open>fetch\<close>. \<open>fallback\<close> and \<open>streaming\<close> are the two branches
  of \<^verbatim>\<open>if (total && response.body)\<close>; \<^verbatim>\<open>allChunks\<close> is the chunks copied one after the
  other.
\<close>

definition fallback ::
  "(chunk \<Rightarrow> thrown + mesh_data) \<Rightarrow> response \<Rightarrow> effect list \<Rightarrow> effect list \<times> thrown option" where
  "fallback parse r start =
     (case parse (concat (body r)) of
        Inl err \<Rightarrow> (start @ [ResponseJson], Some err)
      | Inr meshData \<Rightarrow>
          (start @
           [ResponseJson, SetData meshData, SetLoadProgress 100,
            SetTimeout (SetLoading False) 300], None))"

definition streaming ::
  "(chunk \<Rightarrow> thrown + mesh_data) \<Rightarrow> response \<Rightarrow> int \<Rightarrow> effect list \<Rightarrow> effect list \<times> thrown option" where
  "streaming parse r total' start =
     (let (reports, received) = read_loop total' (body r) 0;
          allChunks = concat (body r)
      in case parse allChunks of
           Inl err \<Rightarrow> (start @ reports @ [SetLoadProgress 95, JSONParse allChunks], Some err)
         | Inr meshData \<Rightarrow>
             (start @ reports @
              [SetLoadProgress 95, JSONParse allChunks, SetData meshData, SetLoadProgress 100,
               SetTimeout (SetLoading False) 300], None))"

definition loadData_try ::
  "(chunk \<Rightarrow> thrown + mesh_data) \<Rightarrow> thrown + response \<Rightarrow> effect list \<times> thrown option" where
  "loadData_try parse outcome =
     (let start = [SetLoadProgress 10, Fetch ''/data/mesh_data.json'']
      in case outcome of
           Inl err \<Rightarrow> (start, Some err)
         | Inr r \<Rightarrow>
             if \<not> ok r then
               (start, Some (ErrorObject (''Failed to load mesh data: '' @ string_of_nat (status r))))
             else
               (case total_of (content_length r) of
                  Some total' \<Rightarrow>
                    if total' \<noteq> 0 \<and> has_body r then streaming parse r total' start
                    else fallback parse r start
                | None \<Rightarrow> fallback parse r start))"

text \<open>The \<^verbatim>\<open>catch\<close> block.\<close>

fun catch_block :: "thrown \<Rightarrow> effect list" where
  "catch_block err =
     [ConsoleError err,
      SetError (case err of ErrorObject m \<Rightarrow> m | OtherValue \<Rightarrow> ''Failed to load data''),
      SetLoading False]"

definition loadData ::
  "(chunk \<Rightarrow> thrown + mesh_data) \<Rightarrow> thrown + response \<Rightarrow> effect list" where
  "loadData parse outcome =
     (case loadData_try parse outcome of
        (es, None) \<Rightarrow> es
      | (es, Some err) \<Rightarrow> es @ catch_block err)"

text \<open>The effect of each action on the state; a timeout's action runs when it expires.\<close>

fun apply_effect :: "effect \<Rightarrow> home_state \<Rightarrow> home_state" where
  "apply_effect (SetLoadProgress p) s = s\<lparr>loadProgress := p\<rparr>"
| "apply_effect (Fetch url) s = s"
| "apply_effect (SetData d) s = s\<lparr>data := Some d\<rparr>"
| "apply_effect (SetError m) s = s\<lparr>error := Some m\<rparr>"
| "apply_effect (SetLoading b) s = s\<lparr>loading := b\<rparr>"
| "apply_effect (ConsoleError err) s = s"
| "apply_effect (SetTimeout e ms) s = apply_effect e s"
| "apply_effect (JSONParse bs) s = s"
| "apply_effect ResponseJson s = s"

definition run_effects :: "effect list \<Rightarrow> home_state \<Rightarrow> home_state" where
  "run_effects es s = fold apply_effect es s"

text \<open>The session after the load effect has run to its end from the initial state.\<close>

definition after_load ::
  "(chunk \<Rightarrow> thrown + mesh_data) \<Rightarrow> thrown + response \<Rightarrow> home_state" where
  "after_load parse outcome = run_effects (loadData parse outcome) Home_init"

text \<open>The progress values reported, the datasets stored and the requests issued.\<close>

fun progress_reports :: "effect list \<Rightarrow> real list" where
  "progress_reports [] = []"
| "progress_reports (SetLoadProgress p # es) = p # progress_reports es"
| "progress_reports (e # es) = progress_reports es"

fun datasets_set :: "effect list \<Rightarrow> mesh_data list" where
  "datasets_set [] = []"
| "datasets_set (SetData d # es) = d # datasets_set es"
| "datasets_set (e # es) = datasets_set es"

fun requests :: "effect list \<Rightarrow> string list" where
  "requests [] = []"
| "requests (Fetch url # es) = url # requests es"
| "requests (e # es) = requests es"

text \<open>
  What \<^verbatim>\<open>Home\<close> renders. \<^verbatim>\<open>if (error)\<close> is false for \<^verbatim>\<open>null\<close> and for the empty
  string. With a dataset, the page reads properties of \<^verbatim>\<open>data.timesteps[currentIndex]\<close>,
  which throws a \<^verbatim>\<open>TypeError\<close> when the index is outside the array: \<open>None\<close>.
\<close>

datatype screen =
    LoadingScreen real
  | ErrorScreen string
  | Blank
  | Viewer timestep_data

definition render_data :: "home_state \<Rightarrow> screen option" where
  "render_data s =
     (case data s of
        None \<Rightarrow> Some Blank
      | Some d \<Rightarrow>
          if 0 \<le> currentIndex s \<and> currentIndex s < totalFrames d
          then Some (Viewer (timesteps d ! nat (currentIndex s)))
          else None)"

definition Home_render :: "home_state \<Rightarrow> screen option" where
  "Home_render s =
     (if loading s then Some (LoadingScreen (loadProgress s))
      else case error s of
             None \<Rightarrow> render_data s
           | Some m \<Rightarrow> if m \<noteq> [] then Some (ErrorScreen m) else render_data s)"

section \<open>Reference notions and sample inputs\<close>

text \<open>The z-coordinate \<^verbatim>\<open>p[2]\<close> of a point, and the extrema over a timestep's points.\<close>

definition z_of :: "point \<Rightarrow> real" where
  "z_of p = (case p of (x, y, z) \<Rightarrow> z)"

definition z_lowest :: "timestep_data \<Rightarrow> real" where
  "z_lowest ts = Min (set (map z_of (points ts)))"

definition z_highest :: "timestep_data \<Rightarrow> real" where
  "z_highest ts = Max (set (map z_of (points ts)))"


text \<open>The three stored colour components of one vertex as a list, in buffer order.\<close>

definition rgb_list :: "color_mode \<Rightarrow> number \<Rightarrow> number \<Rightarrow> point \<Rightarrow> number list" where
  "rgb_list m zMin zR p =
     (case vertex_color m zMin zR p of (r, g, b) \<Rightarrow> [store32 r, store32 g, store32 b])"


text \<open>The bytes received once the first \<open>k\<close> chunks have arrived.\<close>

definition received_after :: "chunk list \<Rightarrow> nat \<Rightarrow> nat" where
  "received_after cs k = sum_list (map length (take k cs))"

text \<open>
  The progress values \<open>10 + 80 * (receivedBytes / L)\<close> after the first, the first two,
  ... and all chunks, as the specification words them.
\<close>

definition chunk_progress :: "int \<Rightarrow> chunk list \<Rightarrow> real list" where
  "chunk_progress L cs =
     map (\<lambda>k. 10 + 80 * (real (received_after cs k) / real_of_int L)) [1..<Suc (length cs)]"

text \<open>A dataset of three frames of one triangle, and the session that shows a dataset.\<close>

definition frame :: "int \<Rightarrow> timestep_data" where
  "frame k =
     \<lparr>index = k, time = real_of_int k / 10,
      points = [(0, 0, 0), (1, 0, 1), (0, 1, 2)], triangles = [(0, 1, 2)]\<rparr>"

definition three_frames :: mesh_data where
  "three_frames =
     \<lparr>timesteps = [frame 0, frame 1, frame 2],
      metadata = \<lparr>total_timesteps = 3, exported_timesteps = 3, time_range = (0, 0.2)\<rparr>\<rparr>"

definition session_start :: "mesh_data \<Rightarrow> home_state" where
  "session_start d = Home_init\<lparr>data := Some d, loading := False, loadProgress := 100\<rparr>"

text \<open>A timestep whose points all lie at height \<open>5\<close>.\<close>

definition flat_timestep :: timestep_data where
  "flat_timestep =
     \<lparr>index = 0, time = 0, points = [(0, 0, 5), (1, 0, 5), (0, 1, 5)], triangles = [(0, 1, 2)]\<rparr>"

text \<open>A timestep whose z-extent exceeds the binary64 range.\<close>

definition huge_timestep :: timestep_data where
  "huge_timestep =
     \<lparr>index = 0, time = 0, points = [(0, 0, - (10 ^ 308)), (0, 0, 10 ^ 308)],
      triangles = []\<rparr>"

text \<open>A timestep with one point and a triangle that names point \<open>5\<close>.\<close>

definition dangling_timestep :: timestep_data where
  "dangling_timestep =
     \<lparr>index = 0, time = 0, points = [(0, 0, 0)], triangles = [(0, 0, 5)]\<rparr>"

text \<open>
  Sample responses of four bytes in two chunks, and a parser that accepts exactly the
  payload \<open>[1, 2, 3, 4]\<close>.
\<close>

definition sample_parse :: "chunk \<Rightarrow> thrown + mesh_data" where
  "sample_parse bs =
     (if bs = [1, 2, 3, 4] then Inr three_frames
      else Inl (ErrorObject ''Unexpected end of JSON input''))"

definition chunked_response :: response where
  "chunked_response =
     \<lparr>ok = True, status = 200, content_length = Declared 4, has_body = True,
      body = [[1], [2, 3, 4]]\<rparr>"

definition plain_response :: response where
  "plain_response =
     \<lparr>ok = True, status = 200, content_length = Absent, has_body = True,
      body = [[1], [2, 3, 4]]\<rparr>"

definition missing_response :: response where
  "missing_response =
     \<lparr>ok = False, status = 404, content_length = Absent, has_body = True, body = []\<rparr>"

definition truncated_response :: response where
  "truncated_response =
     \<lparr>ok = True, status = 200, content_length = Declared 2, has_body = True,
      body = [[1], [2]]\<rparr>"

section \<open>Playback: properties\<close>

lemma sample_frames [simp]:
  "totalFrames three_frames = 3" "lastIndex three_frames = 2" "timesteps three_frames \<noteq> []"
  by (simp_all add: lastIndex_def totalFrames_def three_frames_def)

lemma session_start_fields [simp]:
  "data (session_start d) = Some d" "currentIndex (session_start d) = 0"
  "isPlaying (session_start d) = False" "playbackSpeed (session_start d) = 1"
  by (simp_all add: session_start_def Home_init_def)

lemma reachable_session_start: "reachable d (session_start d)"
  unfolding session_start_def by (rule reachable.loaded)

text \<open>
  C1 (as amended). \<^verbatim>\<open>setIndex\<close> is \<^verbatim>\<open>onIndexChange\<close>, that is the state setter
  itself: it stores \<open>i\<close> unchanged, whatever \<open>i\<close> is, and leaves \<open>isPlaying\<close>
  alone. No clamping takes place; for \<open>0 \<le> i \<le> lastIndex\<close> the stored value is what
  clamping would give.
\<close>

theorem setIndex_stores_argument:
  "currentIndex (onIndexChange i s) = i
   \<and> isPlaying (onIndexChange i s) = isPlaying s
   \<and> (0 \<le> i \<and> i \<le> lastIndex d \<longrightarrow>
        currentIndex (onIndexChange i s) = max 0 (min (lastIndex d) i))"
  by (simp add: onIndexChange_def setCurrentIndex_def)

theorem setIndex_stores_argument_witness:
  "(0::int) \<le> 1 \<and> 1 \<le> lastIndex three_frames
   \<and> currentIndex (onIndexChange 1 (session_start three_frames))
       = max 0 (min (lastIndex three_frames) 1)
   \<and> currentIndex (onIndexChange 1 (session_start three_frames)) = 1
   \<and> \<not> isPlaying (onIndexChange 1 (session_start three_frames))"
  using setIndex_stores_argument [of 1 "session_start three_frames" three_frames]
  by simp

text \<open>
  The claim C1 as stated fails: with three frames, \<^verbatim>\<open>setIndex(-5)\<close> leaves
  \<open>currentIndex = -5\<close>, not \<open>0\<close>, and \<^verbatim>\<open>setIndex(lastIndex + 50)\<close> leaves \<open>52\<close>,
  not \<open>lastIndex = 2\<close>.
\<close>

theorem setIndex_unclamped_counterexample:
  "currentIndex (onIndexChange (- 5) (session_start three_frames)) = - 5
   \<and> currentIndex (onIndexChange (- 5) (session_start three_frames)) \<noteq> 0
   \<and> currentIndex (onIndexChange (lastIndex three_frames + 50) (session_start three_frames)) = 52
   \<and> currentIndex (onIndexChange (lastIndex three_frames + 50) (session_start three_frames))
       \<noteq> lastIndex three_frames"
  by (simp add: onIndexChange_def setCurrentIndex_def)

lemma timer_fire_data: "data (timer_fire s) = data s"
  by (simp add: timer_fire_def interval_callback_def setCurrentIndex_def setIsPlaying_def Let_def
      split: option.splits)

lemma timer_fire_iter_data: "data ((timer_fire ^^ n) s) = data s"
  by (induction n) (simp_all add: timer_fire_data)

lemma timer_fire_playing:
  assumes "data t = Some d" "isPlaying t" "currentIndex t \<le> lastIndex d"
  shows "currentIndex (timer_fire t) = min (currentIndex t + 1) (lastIndex d)"
    and "isPlaying (timer_fire t) \<longleftrightarrow> currentIndex t + 1 \<le> lastIndex d"
  using assms
  by (auto simp: timer_fire_def interval_callback_def setCurrentIndex_def setIsPlaying_def
      Let_def lastIndex_def)

lemma timer_fire_paused: "\<not> isPlaying t \<Longrightarrow> timer_fire t = t"
  by (simp add: timer_fire_def split: option.splits)

lemma timer_fire_iter:
  assumes "data s = Some d" "isPlaying s" "currentIndex s \<le> lastIndex d"
  shows "currentIndex ((timer_fire ^^ n) s) = min (currentIndex s + int n) (lastIndex d)
       \<and> (isPlaying ((timer_fire ^^ n) s) \<longleftrightarrow> currentIndex s + int n \<le> lastIndex d)"
proof (induction n)
  case 0
  with assms show ?case by simp
next
  case (Suc n)
  define t where "t = (timer_fire ^^ n) s"
  have d: "data t = Some d" using assms(1) by (simp add: t_def timer_fire_iter_data)
  have step: "(timer_fire ^^ Suc n) s = timer_fire t" by (simp add: t_def)
  from Suc have IH: "currentIndex t = min (currentIndex s + int n) (lastIndex d)"
    "isPlaying t \<longleftrightarrow> currentIndex s + int n \<le> lastIndex d"
    by (simp_all add: t_def)
  show ?case
  proof (cases "isPlaying t")
    case True
    then have le: "currentIndex t \<le> lastIndex d" using IH by simp
    show ?thesis
      unfolding step using timer_fire_playing [OF d True le] IH True by auto
  next
    case False
    then show ?thesis
      unfolding step using timer_fire_paused [OF False] IH by auto
  qed
qed

text \<open>
  C2. While playing, on a valid index: the timer is armed, with period
  \<open>100 / playbackSpeed\<close> for a positive speed; a firing below the last index adds exactly \<open>1\<close> and changes
  nothing else; a firing at the last index leaves the index there, switches to paused and
  leaves no timer armed. After \<open>n\<close> firings the index is \<open>min (i + n) lastIndex\<close>, so it
  never decreases and never returns to \<open>0\<close>.
\<close>

theorem timer_advances_then_pauses:
  assumes "data s = Some d" and "isPlaying s" and "currentIndex s \<le> lastIndex d"
  shows "animation_interval s \<noteq> None
    \<and> (0 < playbackSpeed s \<longrightarrow> animation_interval s = Some (100 / playbackSpeed s))
    \<and> (currentIndex s < lastIndex d \<longrightarrow>
         timer_fire s = s\<lparr>currentIndex := currentIndex s + 1\<rparr>)
    \<and> (currentIndex s = lastIndex d \<longrightarrow>
         timer_fire s = s\<lparr>isPlaying := False\<rparr> \<and> animation_interval (timer_fire s) = None)
    \<and> (\<forall>n. currentIndex ((timer_fire ^^ n) s) = min (currentIndex s + int n) (lastIndex d)
           \<and> (isPlaying ((timer_fire ^^ n) s) \<longleftrightarrow> currentIndex s + int n \<le> lastIndex d))"
proof -
  have 1: "animation_interval s = Some (100 / playbackSpeed s)"
    using assms by (simp add: animation_interval_def)
  have 2: "timer_fire s = s\<lparr>currentIndex := currentIndex s + 1\<rparr>" if "currentIndex s < lastIndex d"
    using assms that
    by (simp add: timer_fire_def interval_callback_def setCurrentIndex_def Let_def lastIndex_def)
  have 3: "timer_fire s = s\<lparr>isPlaying := False\<rparr> \<and> animation_interval (timer_fire s) = None"
    if "currentIndex s = lastIndex d"
    using assms that
    by (simp add: timer_fire_def interval_callback_def setCurrentIndex_def setIsPlaying_def
        Let_def lastIndex_def animation_interval_def)
  from 1 2 3 timer_fire_iter [OF assms] show ?thesis by blast
qed

theorem timer_advances_then_pauses_witness:
  "data (session_start three_frames\<lparr>isPlaying := True\<rparr>) = Some three_frames
   \<and> isPlaying (session_start three_frames\<lparr>isPlaying := True\<rparr>)
   \<and> currentIndex (session_start three_frames\<lparr>isPlaying := True\<rparr>) \<le> lastIndex three_frames
   \<and> animation_interval (session_start three_frames\<lparr>isPlaying := True\<rparr>) = Some 100
   \<and> timer_fire (session_start three_frames\<lparr>isPlaying := True\<rparr>)
       = session_start three_frames\<lparr>isPlaying := True, currentIndex := 1\<rparr>
   \<and> currentIndex ((timer_fire ^^ 5) (session_start three_frames\<lparr>isPlaying := True\<rparr>)) = 2
   \<and> \<not> isPlaying ((timer_fire ^^ 5) (session_start three_frames\<lparr>isPlaying := True\<rparr>))"
  using timer_advances_then_pauses
    [of "session_start three_frames\<lparr>isPlaying := True\<rparr>" three_frames]
  by simp

lemma handleKeyDown_data: "data (handleKeyDown k s) = data s"
  by (simp add: handleKeyDown_def setCurrentIndex_def setIsPlaying_def setAutoRotate_def
      setShowWireframe_def split: option.splits)

lemma handleKeyDown_index:
  assumes "data s = Some d" and "0 \<le> currentIndex s" and "currentIndex s \<le> lastIndex d"
  shows "0 \<le> currentIndex (handleKeyDown k s) \<and> currentIndex (handleKeyDown k s) \<le> lastIndex d"
  using assms
  by (simp add: handleKeyDown_def setCurrentIndex_def setIsPlaying_def setAutoRotate_def
      setShowWireframe_def lastIndex_def min_def max_def)

lemma Controls_data: "data (Controls d ev s) = data s"
  by (cases ev) (simp_all add: onIndexChange_def setCurrentIndex_def setIsPlaying_def
      setAutoRotate_def setShowWireframe_def setPlaybackSpeed_def setColorMode_def)

lemma Controls_index:
  assumes "allowed d ev" and "0 \<le> currentIndex s" and "currentIndex s \<le> lastIndex d"
    and "0 \<le> lastIndex d"
  shows "0 \<le> currentIndex (Controls d ev s) \<and> currentIndex (Controls d ev s) \<le> lastIndex d"
  using assms
  by (cases ev) (simp_all add: onIndexChange_def setCurrentIndex_def setIsPlaying_def
      setAutoRotate_def setShowWireframe_def setPlaybackSpeed_def setColorMode_def
      slider_value_def lastIndex_def)

lemma timer_fire_index:
  assumes "0 \<le> currentIndex s" and "currentIndex s \<le> lastIndex d" and "data s = Some d"
  shows "0 \<le> currentIndex (timer_fire s) \<and> currentIndex (timer_fire s) \<le> lastIndex d"
  using assms
  by (simp add: timer_fire_def interval_callback_def setCurrentIndex_def setIsPlaying_def
      Let_def lastIndex_def)

lemma reachable_inv:
  assumes "reachable d s" and "timesteps d \<noteq> []"
  shows "data s = Some d \<and> 0 \<le> currentIndex s \<and> currentIndex s \<le> lastIndex d"
  using assms(1)
proof (induction rule: reachable.induct)
  case (loaded l p)
  then show ?case using assms(2) by (simp add: Home_init_def lastIndex_def totalFrames_def)
next
  case (key s k)
  then show ?case using handleKeyDown_index [of s d k] by (simp add: handleKeyDown_data)
next
  case (control s ev)
  have "0 \<le> lastIndex d" using assms(2) by (simp add: lastIndex_def totalFrames_def Suc_le_eq)
  with control show ?case using Controls_index [of d ev s] by (simp add: Controls_data)
next
  case (timer s)
  then show ?case using timer_fire_index [of s d] by (simp add: timer_fire_data)
qed

text \<open>
  C9. For a dataset with at least one timestep, every state reached from the loaded
  session by key presses, control events (slider values within the slider's range,
  reset and end buttons, play, speed, view options) and timer firings has
  \<open>0 \<le> currentIndex \<le> timesteps.length - 1\<close>. Left arrow at index \<open>0\<close> leaves \<open>0\<close>,
  and right arrow at the last index leaves the last index.
\<close>

theorem currentIndex_stays_in_range:
  assumes "reachable d s" and "timesteps d \<noteq> []"
  shows "0 \<le> currentIndex s \<and> currentIndex s \<le> int (length (timesteps d)) - 1
    \<and> (currentIndex s = 0 \<longrightarrow> currentIndex (handleKeyDown ''ArrowLeft'' s) = 0)
    \<and> (currentIndex s = int (length (timesteps d)) - 1 \<longrightarrow>
         currentIndex (handleKeyDown ''ArrowRight'' s) = int (length (timesteps d)) - 1)"
proof -
  from reachable_inv [OF assms]
  have inv: "data s = Some d" "0 \<le> currentIndex s" "currentIndex s \<le> lastIndex d"
    by simp_all
  have left: "currentIndex (handleKeyDown ''ArrowLeft'' s) = 0" if "currentIndex s = 0"
    using inv(1) that by (simp add: handleKeyDown_def setCurrentIndex_def)
  have right: "currentIndex (handleKeyDown ''ArrowRight'' s) = int (length (timesteps d)) - 1"
    if "currentIndex s = int (length (timesteps d)) - 1"
    using inv(1) that by (simp add: handleKeyDown_def setCurrentIndex_def totalFrames_def)
  from inv left right show ?thesis
    by (simp add: lastIndex_def totalFrames_def)
qed

theorem currentIndex_stays_in_range_witness:
  "reachable three_frames
     (timer_fire (handleKeyDown '' '' (Controls three_frames (SliderChange 2)
        (session_start three_frames))))
   \<and> timesteps three_frames \<noteq> []
   \<and> currentIndex (timer_fire (handleKeyDown '' '' (Controls three_frames (SliderChange 2)
        (session_start three_frames)))) = 2
   \<and> currentIndex (handleKeyDown ''ArrowRight'' (timer_fire (handleKeyDown '' ''
        (Controls three_frames (SliderChange 2) (session_start three_frames))))) = 2"
proof -
  let ?s = "timer_fire (handleKeyDown '' '' (Controls three_frames (SliderChange 2)
        (session_start three_frames)))"
  have "allowed three_frames (SliderChange 2)"
    by (simp add: slider_value_def)
  then have r: "reachable three_frames ?s"
    by (intro reachable.timer reachable.key reachable.control reachable_session_start)
  have ne: "timesteps three_frames \<noteq> []" by simp
  have cur: "currentIndex ?s = 2"
    by (simp add: timer_fire_def handleKeyDown_def interval_callback_def onIndexChange_def
        setCurrentIndex_def setIsPlaying_def Let_def)
  from currentIndex_stays_in_range [OF r ne] r ne cur show ?thesis
    by (simp add: three_frames_def)
qed

text \<open>
  C10. While no dataset is loaded (\<open>data\<close> is null) the keyboard handler returns at
  once: the state is unchanged, in particular \<open>currentIndex\<close>, \<open>isPlaying\<close>,
  \<open>autoRotate\<close> and \<open>showWireframe\<close>.
\<close>

theorem keyboard_ignored_before_load:
  assumes "data s = None"
  shows "handleKeyDown k s = s
    \<and> currentIndex (handleKeyDown k s) = currentIndex s
    \<and> isPlaying (handleKeyDown k s) = isPlaying s
    \<and> autoRotate (handleKeyDown k s) = autoRotate s
    \<and> showWireframe (handleKeyDown k s) = showWireframe s"
  using assms by (simp add: handleKeyDown_def)

theorem keyboard_ignored_before_load_witness:
  "data Home_init = None
   \<and> handleKeyDown ''End'' Home_init = Home_init
   \<and> handleKeyDown '' '' Home_init = Home_init
   \<and> currentIndex (handleKeyDown ''ArrowRight'' Home_init) = 0"
  using keyboard_ignored_before_load [of Home_init "''End''"]
    keyboard_ignored_before_load [of Home_init "'' ''"]
    keyboard_ignored_before_load [of Home_init "''ArrowRight''"]
  by (simp add: Home_init_def)


section \<open>Attribute derivation: properties\<close>

lemma fold_push3:
  "fold (\<lambda>(x, y, z) acc. acc @ [x, y, z]) ps acc0 = acc0 @ concat (map (\<lambda>(x, y, z). [x, y, z]) ps)"
  by (induction ps arbitrary: acc0) (auto simp: case_prod_beta)

lemma length_concat3:
  "length (concat (map (\<lambda>(x, y, z). [x, y, z]) ps)) = 3 * length ps"
  by (induction ps) (auto simp: case_prod_beta)

lemma z_scan_step_Finite:
  "z_scan_step p (Finite a, Finite b) = (Finite (min (z_of p) a), Finite (max (z_of p) b))"
  by (cases p) (auto simp: z_scan_step_def z_of_def)

lemma fold_z_scan_Finite:
  "fold z_scan_step ps (Finite a, Finite b) =
     (Finite (Min (insert a (set (map z_of ps)))), Finite (Max (insert b (set (map z_of ps)))))"
proof (induction ps arbitrary: a b)
  case Nil
  then show ?case by simp
next
  case (Cons p ps)
  let ?S = "set (map z_of ps)"
  have fin: "finite ?S" by simp
  have mn: "Min (insert (min (z_of p) a) ?S) = Min (insert a (insert (z_of p) ?S))"
    by (cases "?S = {}") (simp_all add: min.commute min.left_commute)
  have mx: "Max (insert (max (z_of p) b) ?S) = Max (insert b (insert (z_of p) ?S))"
    by (cases "?S = {}") (simp_all add: max.commute max.left_commute)
  show ?case
    using Cons.IH [of "min (z_of p) a" "max (z_of p) b"] mn mx
    by (simp add: z_scan_step_Finite)
qed

lemma z_scan_Cons:
  "z_scan (p # ps) = (Finite (Min (set (map z_of (p # ps)))), Finite (Max (set (map z_of (p # ps)))))"
proof -
  have "z_scan_step p (Infinity, NegInfinity) = (Finite (z_of p), Finite (z_of p))"
    by (cases p) (simp add: z_scan_step_def z_of_def)
  then show ?thesis
    by (simp add: z_scan_def fold_z_scan_Finite)
qed

lemma take3_update:
  assumes "3 * k + 3 \<le> length buf"
  shows "take (3 * k + 3) (buf[k * 3 := r, k * 3 + 1 := g, k * 3 + 2 := b]) = take (3 * k) buf @ [r, g, b]"
proof (rule nth_equalityI)
  show "length (take (3 * k + 3) (buf[k * 3 := r, k * 3 + 1 := g, k * 3 + 2 := b])) = length (take (3 * k) buf @ [r, g, b])"
    using assms by simp
next
  fix i assume "i < length (take (3 * k + 3) (buf[k * 3 := r, k * 3 + 1 := g, k * 3 + 2 := b]))"
  then have i: "i < 3 * k + 3" by simp
  consider "i < 3 * k" | "i = 3 * k" | "i = 3 * k + 1" | "i = 3 * k + 2" using i by linarith
  then show "take (3 * k + 3) (buf[k * 3 := r, k * 3 + 1 := g, k * 3 + 2 := b]) ! i = (take (3 * k) buf @ [r, g, b]) ! i"
    using assms by cases (simp_all add: nth_append nth_list_update mult.commute)
qed

lemma write_vertex_length: "length (write_vertex m zMin zR ip buf) = length buf"
  by (cases ip) (simp add: write_vertex_def split: prod.splits)

lemma fold_write_vertex:
  assumes "length buf = 3 * (k + length ps)"
  shows "fold (write_vertex m zMin zR) (enumerate k ps) buf
       = take (3 * k) buf @ concat (map (rgb_list m zMin zR) ps)"
  using assms
proof (induction ps arbitrary: k buf)
  case Nil
  then show ?case by simp
next
  case (Cons p ps)
  obtain r g b where c: "vertex_color m zMin zR p = (r, g, b)" by (cases "vertex_color m zMin zR p")
  let ?buf = "write_vertex m zMin zR (k, p) buf"
  have len: "length ?buf = 3 * (Suc k + length ps)"
    using Cons.prems by (simp add: write_vertex_length)
  have "take (3 * Suc k) ?buf = take (3 * k) buf @ [store32 r, store32 g, store32 b]"
  proof -
    have "3 * k + 3 \<le> length buf" using Cons.prems by simp
    from take3_update [OF this, of "store32 r" "store32 g" "store32 b"] show ?thesis
      by (simp add: write_vertex_def c add.commute)
  qed
  with Cons.IH [OF len] c show ?case
    by (simp add: rgb_list_def)
qed


lemma overflow_bounds: "2 < overflow64" "2 < overflow32"
  by (simp_all add: overflow64_def overflow32_def)







lemma z_scan_Nil: "z_scan [] = (Infinity, NegInfinity)"
  by (simp add: z_scan_def)

lemma z_scan_Finite:
  assumes "ps \<noteq> []"
  shows "z_scan ps = (Finite (Min (set (map z_of ps))), Finite (Max (set (map z_of ps))))"
  using assms z_scan_Cons by (cases ps) simp_all

lemma posArray_eq: "posArray ts = concat (map (\<lambda>(x, y, z). [x, y, z]) (points ts))"
  by (simp add: posArray_def fold_push3)

lemma idxArray_eq: "idxArray ts = concat (map (\<lambda>(a, b, c). [a, b, c]) (triangles ts))"
  by (simp add: idxArray_def fold_push3)

lemma colors_of_eq:
  "colors_of ts m =
     (case z_scan (points ts) of (zMin, zMax) \<Rightarrow>
        concat (map (rgb_list m zMin (zRange zMin zMax)) (points ts)))"
proof -
  obtain zMin zMax where z: "z_scan (points ts) = (zMin, zMax)" by (cases "z_scan (points ts)")
  have "length (replicate (length (points ts) * 3) (Finite 0)) = 3 * (0 + length (points ts))"
    by simp
  from fold_write_vertex [OF this] show ?thesis
    by (simp add: colors_of_def z)
qed

lemma length_rgb_list: "length (rgb_list m zMin zR p) = 3"
  by (cases "vertex_color m zMin zR p") (simp add: rgb_list_def)

lemma length_concat_rgb: "length (concat (map (rgb_list m zMin zR) ps)) = 3 * length ps"
  by (induction ps) (simp_all add: length_rgb_list)

lemma length_colors_of: "length (colors_of ts m) = 3 * length (points ts)"
  by (cases "z_scan (points ts)") (simp add: colors_of_eq length_concat_rgb)












text \<open>The stored \<open>0.1\<close> is the binary32 number \<open>13421773 / 2 ^ 27\<close>, about \<open>0.10000000149\<close>.\<close>

lemma fround_tenth: "fround 0.1 = 13421773 / 2 ^ 27"
proof -
  have "\<lfloor>log 2 (1 / 10 :: real)\<rfloor> = - 4"
  proof (rule floor_unique)
    show "of_int (- 4) \<le> log 2 (1 / 10 :: real)"
      by (simp add: le_log_iff powr_minus powr_numeral)
    show "log 2 (1 / 10 :: real) < of_int (- 4) + 1"
      by (simp add: log_less_iff powr_minus powr_numeral)
  qed
  then have e: "max \<lfloor>log 2 \<bar>0.1 :: real\<bar>\<rfloor> (- 126) = - 4" by simp
  have q: "(2::real) powr (of_int (- 4) - 23) = 1 / 2 ^ 27"
    by (simp add: powr_minus powr_numeral divide_simps)
  have r: "rne (0.1 / (1 / 2 ^ 27)) = 13421773"
    by (simp add: rne_def Let_def)
  have "fround 0.1 = of_int (rne (0.1 / (1 / 2 ^ 27))) * (1 / 2 ^ 27)"
    unfolding fround_def Let_def e q ..
  then show ?thesis
    unfolding r by simp
qed










lemma sample_extrema [simp]:
  "z_lowest (frame k) = 0" "z_highest (frame k) = 2"
  "z_lowest flat_timestep = 5" "z_highest flat_timestep = 5"
  by (simp_all add: z_lowest_def z_highest_def frame_def flat_timestep_def z_of_def)


text \<open>
  Beyond the hypothesis of C6: when \<open>zMax - zMin\<close> reaches the overflow threshold, as
  for the z-coordinates \<open>-10 ^ 308\<close> and \<open>10 ^ 308\<close>, the difference is \<^verbatim>\<open>Infinity\<close>,
  the top vertex gets \<open>Infinity / Infinity\<close>, and its first colour component is
  \<^verbatim>\<open>NaN\<close>.
\<close>

lemma height_overflow:
  assumes "points ts = [(x0, y0, - M), (x1, y1, M)]" and "overflow64 \<le> M + M"
  shows "colors (geometry ts Height) ! 3 = NaN"
proof -
  have M: "0 < M" using assms(2) overflow_bounds(1) by linarith
  have ne: "points ts \<noteq> []" by (simp add: assms(1))
  have s: "z_scan (points ts) = (Finite (- M), Finite M)"
    using M by (simp add: z_scan_Finite [OF ne]) (simp add: assms(1) z_of_def)
  have zr: "zRange (Finite (- M)) (Finite M) = Infinity"
    using assms(2) by (simp add: zRange_def num_sub_def binary64_def)
  have top: "rgb_list Height (Finite (- M)) Infinity (x1, y1, M) = [NaN, NaN, NaN]"
    using assms(2) by (simp add: rgb_list_def num_sub_def binary64_def)
  have "colors (geometry ts Height)
      = concat (map (rgb_list Height (Finite (- M)) Infinity) (points ts))"
    by (simp add: geometry_def colors_of_eq s zr)
  then have "colors (geometry ts Height)
      = rgb_list Height (Finite (- M)) Infinity (x0, y0, - M) @ [NaN, NaN, NaN]"
    by (simp add: assms(1) top)
  then show ?thesis
    by (simp add: nth_append length_rgb_list)
qed

lemma height_overflow_sample: "colors (geometry huge_timestep Height) ! 3 = NaN"
proof (rule height_overflow)
  show "points huge_timestep = [(0, 0, - (10 ^ 308)), (0, 0, 10 ^ 308)]"
    by (simp add: huge_timestep_def)
  show "overflow64 \<le> 10 ^ 308 + 10 ^ 308"
    by (simp add: overflow64_def)
qed

text \<open>
  C8. For every timestep and every colour mode the three buffers have lengths
  \<open>3 * points.length\<close>, \<open>3 * triangles.length\<close> and \<open>3 * points.length\<close>.
\<close>

theorem buffer_lengths:
  "length (positions (geometry ts mode)) = 3 * length (points ts)
   \<and> length (indices (geometry ts mode)) = 3 * length (triangles ts)
   \<and> length (colors (geometry ts mode)) = 3 * length (points ts)"
  by (simp add: geometry_def Float32Array_def Uint32Array_def posArray_eq idxArray_eq
      length_concat3 length_colors_of)

theorem buffer_lengths_witness:
  "length (positions (geometry (frame 1) Curvature)) = 9
   \<and> length (indices (geometry (frame 1) Curvature)) = 3
   \<and> length (colors (geometry (frame 1) Curvature)) = 9"
  using buffer_lengths [of "frame 1" Curvature]
  by (simp add: frame_def)

lemma Uint32Array_idxArray:
  "Uint32Array (idxArray ts) =
     concat (map (\<lambda>(a, b, c). [word_of_int a, word_of_int b, word_of_int c]) (triangles ts))"
proof -
  have "map word_of_int (concat (map (\<lambda>(a, b, c). [a, b, c]) ts)) =
        concat (map (\<lambda>(a, b, c). [word_of_int a, word_of_int b, word_of_int c :: 32 word]) ts)"
    for ts :: "triangle list"
    by (induction ts) auto
  then show ?thesis
    by (simp add: Uint32Array_def idxArray_eq)
qed

text \<open>
  C3 (as amended). The derivation checks no index: for every timestep, whether or not its
  triangles are valid, it returns buffers whose index buffer is the triangles' components
  in order, each reduced to an unsigned 32-bit integer.
\<close>

theorem indices_copy_triangles:
  "indices (geometry ts mode) =
     concat (map (\<lambda>(a, b, c). [word_of_int a, word_of_int b, word_of_int c]) (triangles ts))"
  by (simp add: geometry_def Uint32Array_idxArray)

theorem indices_copy_triangles_witness:
  "indices (geometry (frame 0) Solid) = [0, 1, 2]"
  using indices_copy_triangles [of "frame 0" Solid]
  by (simp add: frame_def)

text \<open>
  The claim C3 as stated fails: \<open>dangling_timestep\<close> has one point and the triangle
  \<open>(0, 0, 5)\<close>, which is not valid; the derivation returns the index buffer \<open>[0, 0, 5]\<close>,
  whose last entry is no index of a point.
\<close>

theorem dangling_index_counterexample:
  "\<not> valid_triangle dangling_timestep (0, 0, 5)
   \<and> triangles dangling_timestep = [(0, 0, 5)]
   \<and> indices (geometry dangling_timestep Height) = [0, 0, 5]
   \<and> \<not> unat (indices (geometry dangling_timestep Height) ! 2) < length (points dangling_timestep)"
  by (simp add: geometry_def Uint32Array_idxArray dangling_timestep_def valid_index_def)


section \<open>Loading: properties\<close>

lemma string_of_nat_samples [simp]:
  "string_of_nat 404 = ''404''" "string_of_nat 200 = ''200''"
  by (simp_all add: string_of_nat.simps digit_def)

lemma progress_reports_append:
  "progress_reports (es @ fs) = progress_reports es @ progress_reports fs"
proof (induction es)
  case Nil
  then show ?case by simp
next
  case (Cons e es)
  then show ?case by (cases e) simp_all
qed

lemma requests_append: "requests (es @ fs) = requests es @ requests fs"
proof (induction es)
  case Nil
  then show ?case by simp
next
  case (Cons e es)
  then show ?case by (cases e) simp_all
qed

lemma datasets_set_append: "datasets_set (es @ fs) = datasets_set es @ datasets_set fs"
proof (induction es)
  case Nil
  then show ?case by simp
next
  case (Cons e es)
  then show ?case by (cases e) simp_all
qed

lemma reports_only [simp]:
  "progress_reports (map SetLoadProgress xs) = xs"
  "requests (map SetLoadProgress xs) = []"
  "datasets_set (map SetLoadProgress xs) = []"
  by (induction xs) simp_all

lemma run_effects_append: "run_effects (es @ fs) s = run_effects fs (run_effects es s)"
  by (simp add: run_effects_def)

lemma run_effects_Cons: "run_effects (e # es) s = run_effects es (apply_effect e s)"
  by (simp add: run_effects_def)

lemma run_effects_Nil: "run_effects [] s = s"
  by (simp add: run_effects_def)

lemma run_reports_only:
  "data (run_effects (map SetLoadProgress xs) s) = data s"
  "error (run_effects (map SetLoadProgress xs) s) = error s"
  "loading (run_effects (map SetLoadProgress xs) s) = loading s"
  "currentIndex (run_effects (map SetLoadProgress xs) s) = currentIndex s"
  by (induction xs arbitrary: s) (simp_all add: run_effects_def)

text \<open>The read loop reports once per chunk, each time from the bytes received so far.\<close>

lemma read_loop_fst_Cons:
  "fst (read_loop L (c # cs) rcv) =
     SetLoadProgress (10 + (real (rcv + length c) / real_of_int L) * 80)
       # fst (read_loop L cs (rcv + length c))"
  by (simp add: Let_def case_prod_beta)

lemma read_loop_snd: "snd (read_loop L cs rcv) = rcv + sum_list (map length cs)"
  by (induction cs arbitrary: rcv) (simp_all add: Let_def case_prod_beta)

lemma read_loop_reports:
  "fst (read_loop L cs rcv) = map SetLoadProgress (progress_reports (fst (read_loop L cs rcv)))"
proof (induction cs arbitrary: rcv)
  case Nil
  then show ?case by simp
next
  case (Cons c cs)
  from Cons [of "rcv + length c"] show ?case
    by (simp add: read_loop_fst_Cons del: read_loop.simps)
qed

lemma read_loop_length:
  "length (progress_reports (fst (read_loop L cs rcv))) = length cs"
proof (induction cs arbitrary: rcv)
  case Nil
  then show ?case by simp
next
  case (Cons c cs)
  from Cons [of "rcv + length c"] show ?case
    by (simp add: read_loop_fst_Cons del: read_loop.simps)
qed

lemma read_loop_nth:
  assumes "j < length cs"
  shows "progress_reports (fst (read_loop L cs rcv)) ! j
       = 10 + 80 * (real (rcv + received_after cs (Suc j)) / real_of_int L)"
  using assms
proof (induction cs arbitrary: rcv j)
  case Nil
  then show ?case by simp
next
  case (Cons c cs)
  show ?case
  proof (cases j)
    case 0
    then show ?thesis
      by (simp add: read_loop_fst_Cons received_after_def del: read_loop.simps)
  next
    case (Suc i)
    then have i: "i < length cs" using Cons.prems by simp
    from Cons.IH [OF i, of "rcv + length c"] show ?thesis
      by (simp add: Suc read_loop_fst_Cons received_after_def add.assoc del: read_loop.simps)
  qed
qed

lemma read_loop_chunk_progress:
  "fst (read_loop L cs 0) = map SetLoadProgress (chunk_progress L cs)"
proof -
  have "progress_reports (fst (read_loop L cs 0)) = chunk_progress L cs"
  proof (rule nth_equalityI)
    show "length (progress_reports (fst (read_loop L cs 0))) = length (chunk_progress L cs)"
      by (simp add: read_loop_length chunk_progress_def del: upt_Suc)
  next
    fix j assume "j < length (progress_reports (fst (read_loop L cs 0)))"
    then have j: "j < length cs" by (simp add: read_loop_length)
    then show "progress_reports (fst (read_loop L cs 0)) ! j = chunk_progress L cs ! j"
      by (simp add: read_loop_nth chunk_progress_def nth_map_upt del: upt_Suc)
  qed
  with read_loop_reports [of L cs 0] show ?thesis by simp
qed

lemma received_after_le: "received_after cs k \<le> sum_list (map length cs)"
proof -
  have "sum_list (map length cs) = sum_list (map length (take k cs)) + sum_list (map length (drop k cs))"
    by (metis append_take_drop_id map_append sum_list_append)
  then show ?thesis by (simp add: received_after_def)
qed

lemma received_after_mono: "k \<le> l \<Longrightarrow> received_after cs k \<le> received_after cs l"
proof -
  assume "k \<le> l"
  then have "take k cs = take k (take l cs)" by (simp add: min_def)
  then have "received_after cs k = received_after (take l cs) k"
    by (simp add: received_after_def)
  also have "\<dots> \<le> sum_list (map length (take l cs))" by (rule received_after_le)
  finally show ?thesis by (simp add: received_after_def)
qed

lemma chunk_progress_sorted:
  assumes "0 < L"
  shows "sorted (chunk_progress L cs)"
proof -
  have "10 + 80 * (real (received_after cs k) / real_of_int L)
      \<le> 10 + 80 * (real (received_after cs l) / real_of_int L)" if "k \<le> l" for k l
    using received_after_mono [OF that, of cs] assms by (simp add: divide_right_mono)
  then show ?thesis
    unfolding chunk_progress_def sorted_map
    by (intro sorted_wrt_mono_rel [OF _ sorted_upt]) simp
qed

lemma chunk_progress_bounds:
  assumes "0 < L" and "int (sum_list (map length cs)) = L" and "p \<in> set (chunk_progress L cs)"
  shows "10 \<le> p \<and> p \<le> 90"
proof -
  from assms(3) obtain k where p: "p = 10 + 80 * (real (received_after cs k) / real_of_int L)"
    by (auto simp: chunk_progress_def)
  have "real (received_after cs k) \<le> real_of_int L"
    using received_after_le [of cs k] assms(2) by linarith
  then have "real (received_after cs k) / real_of_int L \<le> 1"
    using assms(1) by simp
  moreover have "0 \<le> real (received_after cs k) / real_of_int L"
    using assms(1) by simp
  ultimately show ?thesis unfolding p by simp
qed

lemma streaming_success:
  assumes "parse (concat (body r)) = Inr d"
  shows "streaming parse r L start =
     (start @ map SetLoadProgress (chunk_progress L (body r)) @
      [SetLoadProgress 95, JSONParse (concat (body r)), SetData d, SetLoadProgress 100,
       SetTimeout (SetLoading False) 300], None)"
proof -
  obtain es n where rl: "read_loop L (body r) 0 = (es, n)" by (cases "read_loop L (body r) 0")
  then have "es = map SetLoadProgress (chunk_progress L (body r))"
    using read_loop_chunk_progress [of L "body r"] by simp
  with rl assms show ?thesis by (simp add: streaming_def)
qed

lemma streaming_failure:
  assumes "parse (concat (body r)) = Inl err"
  shows "streaming parse r L start =
     (start @ map SetLoadProgress (chunk_progress L (body r)) @
      [SetLoadProgress 95, JSONParse (concat (body r))], Some err)"
proof -
  obtain es n where rl: "read_loop L (body r) 0 = (es, n)" by (cases "read_loop L (body r) 0")
  then have "es = map SetLoadProgress (chunk_progress L (body r))"
    using read_loop_chunk_progress [of L "body r"] by simp
  with rl assms show ?thesis by (simp add: streaming_def)
qed

lemma loadData_streaming:
  assumes "ok r" and "content_length r = Declared L" and "has_body r" and "L \<noteq> 0"
    and "parse (concat (body r)) = Inr d"
  shows "loadData parse (Inr r) =
      [SetLoadProgress 10, Fetch ''/data/mesh_data.json''] @
      map SetLoadProgress (chunk_progress L (body r)) @
      [SetLoadProgress 95, JSONParse (concat (body r)), SetData d, SetLoadProgress 100,
       SetTimeout (SetLoading False) 300]"
  using assms by (simp add: loadData_def loadData_try_def streaming_success)

text \<open>
  C5. A response with success status and declared content length \<open>L > 0\<close>, whose body
  stream delivers chunks of \<open>L\<close> bytes in all and whose payload parses: the actions are
  the report \<open>10\<close> and the request, then one report \<open>10 + 80 * (receivedBytes / L)\<close> per
  chunk, then the report \<open>95\<close>, the parse, the dataset, the report \<open>100\<close> and the
  timer. The reported values are non-decreasing and the last one is \<open>100\<close>.
\<close>

theorem streaming_progress_reports:
  assumes "ok r" and "content_length r = Declared L" and "has_body r" and "0 < L"
    and "int (sum_list (map length (body r))) = L" and "parse (concat (body r)) = Inr d"
  shows "loadData parse (Inr r) =
      [SetLoadProgress 10, Fetch ''/data/mesh_data.json''] @
      map SetLoadProgress (chunk_progress L (body r)) @
      [SetLoadProgress 95, JSONParse (concat (body r)), SetData d, SetLoadProgress 100,
       SetTimeout (SetLoading False) 300]
    \<and> progress_reports (loadData parse (Inr r)) = 10 # chunk_progress L (body r) @ [95, 100]
    \<and> sorted (progress_reports (loadData parse (Inr r)))
    \<and> last (progress_reports (loadData parse (Inr r))) = 100
    \<and> data (after_load parse (Inr r)) = Some d"
proof -
  have L: "L \<noteq> 0" using assms(4) by simp
  note eq = loadData_streaming [where parse = parse and r = r and d = d, OF assms(1-3) L assms(6)]
  have pr: "progress_reports (loadData parse (Inr r)) = 10 # chunk_progress L (body r) @ [95, 100]"
    unfolding eq by (simp add: progress_reports_append)
  have b: "10 \<le> p \<and> p \<le> 90" if "p \<in> set (chunk_progress L (body r))" for p
    using chunk_progress_bounds [OF assms(4,5) that] .
  have "sorted (10 # chunk_progress L (body r) @ [95, 100])"
    using chunk_progress_sorted [OF assms(4), of "body r"] b
    by (fastforce simp: sorted_append)
  then have so: "sorted (progress_reports (loadData parse (Inr r)))"
    by (simp only: pr)
  have la: "last (progress_reports (loadData parse (Inr r))) = 100"
    unfolding pr by simp
  have da: "data (after_load parse (Inr r)) = Some d"
    unfolding after_load_def eq
    by (simp add: run_effects_append run_effects_Cons run_effects_Nil)
  from eq pr so la da show ?thesis by blast
qed

lemma sample_parse_payload [simp]:
  "sample_parse (concat (body chunked_response)) = Inr three_frames"
  "sample_parse (concat (body plain_response)) = Inr three_frames"
  "sample_parse (concat (body truncated_response))
     = Inl (ErrorObject ''Unexpected end of JSON input'')"
  by (simp_all add: sample_parse_def chunked_response_def plain_response_def
      truncated_response_def)

lemma sample_chunk_progress: "chunk_progress 4 (body chunked_response) = [30, 90]"
  by (simp add: chunk_progress_def received_after_def chunked_response_def upt_rec)

theorem streaming_progress_reports_witness:
  "ok chunked_response \<and> content_length chunked_response = Declared 4
   \<and> has_body chunked_response \<and> (0::int) < 4
   \<and> int (sum_list (map length (body chunked_response))) = 4
   \<and> sample_parse (concat (body chunked_response)) = Inr three_frames
   \<and> progress_reports (loadData sample_parse (Inr chunked_response)) = [10, 30, 90, 95, 100]
   \<and> sorted (progress_reports (loadData sample_parse (Inr chunked_response)))
   \<and> last (progress_reports (loadData sample_parse (Inr chunked_response))) = 100
   \<and> data (after_load sample_parse (Inr chunked_response)) = Some three_frames"
proof -
  have h: "ok chunked_response" "content_length chunked_response = Declared 4"
    "has_body chunked_response" "(0::int) < 4"
    "int (sum_list (map length (body chunked_response))) = 4"
    by (simp_all add: chunked_response_def)
  from streaming_progress_reports
    [where parse = sample_parse and r = chunked_response and d = three_frames,
      OF h sample_parse_payload(1)] h
  show ?thesis
    by (simp add: sample_chunk_progress)
qed

text \<open>
  C4. A response with success status and no content-length header, whose payload parses:
  after the report \<open>10\<close> that precedes the request on every path, the loader makes one
  request, reads the whole payload with \<^verbatim>\<open>response.json()\<close>, stores the dataset and
  reports \<open>100\<close>. The reported values are exactly \<open>10, 100\<close>: no chunk report, no \<open>95\<close>.
\<close>

theorem fallback_single_jump:
  assumes "ok r" and "content_length r = Absent" and "parse (concat (body r)) = Inr d"
  shows "loadData parse (Inr r) =
      [SetLoadProgress 10, Fetch ''/data/mesh_data.json'', ResponseJson, SetData d,
       SetLoadProgress 100, SetTimeout (SetLoading False) 300]
    \<and> progress_reports (loadData parse (Inr r)) = [10, 100]
    \<and> requests (loadData parse (Inr r)) = [''/data/mesh_data.json'']
    \<and> datasets_set (loadData parse (Inr r)) = [d]
    \<and> data (after_load parse (Inr r)) = Some d
    \<and> loadProgress (after_load parse (Inr r)) = 100"
proof -
  have eq: "loadData parse (Inr r) =
      [SetLoadProgress 10, Fetch ''/data/mesh_data.json'', ResponseJson, SetData d,
       SetLoadProgress 100, SetTimeout (SetLoading False) 300]"
    using assms by (simp add: loadData_def loadData_try_def fallback_def)
  show ?thesis
    unfolding after_load_def eq by (simp add: run_effects_def)
qed

theorem fallback_single_jump_witness:
  "ok plain_response \<and> content_length plain_response = Absent
   \<and> sample_parse (concat (body plain_response)) = Inr three_frames
   \<and> progress_reports (loadData sample_parse (Inr plain_response)) = [10, 100]
   \<and> datasets_set (loadData sample_parse (Inr plain_response)) = [three_frames]
   \<and> data (after_load sample_parse (Inr plain_response)) = Some three_frames"
proof -
  have h: "ok plain_response" "content_length plain_response = Absent"
    by (simp_all add: plain_response_def)
  from fallback_single_jump
    [where parse = sample_parse and r = plain_response and d = three_frames,
      OF h sample_parse_payload(2)] h
  show ?thesis
    by simp
qed

lemma failure_effects:
  assumes "ok r" and "parse (concat (body r)) = Inl err"
  shows "\<exists>xs rest. loadData parse (Inr r) =
            [SetLoadProgress 10, Fetch ''/data/mesh_data.json''] @ map SetLoadProgress xs @ rest
              @ catch_block err
          \<and> (rest = [ResponseJson] \<or> rest = [SetLoadProgress 95, JSONParse (concat (body r))])"
proof (cases "\<exists>L. total_of (content_length r) = Some L \<and> L \<noteq> 0 \<and> has_body r")
  case True
  then obtain L where L: "total_of (content_length r) = Some L" "L \<noteq> 0" "has_body r"
    by blast
  have "loadData parse (Inr r) =
      [SetLoadProgress 10, Fetch ''/data/mesh_data.json''] @
      map SetLoadProgress (chunk_progress L (body r)) @
      [SetLoadProgress 95, JSONParse (concat (body r))] @ catch_block err"
    using assms L
    by (simp add: loadData_def loadData_try_def streaming_failure del: catch_block.simps)
  then show ?thesis by blast
next
  case False
  have "loadData_try parse (Inr r)
      = fallback parse r [SetLoadProgress 10, Fetch ''/data/mesh_data.json'']"
    using False assms(1) by (cases "total_of (content_length r)") (auto simp: loadData_try_def)
  then have "loadData parse (Inr r) =
      [SetLoadProgress 10, Fetch ''/data/mesh_data.json''] @ map SetLoadProgress [] @
      [ResponseJson] @ catch_block err"
    using assms(2) by (simp add: loadData_def fallback_def del: catch_block.simps)
  then show ?thesis by blast
qed

lemma failure_state:
  assumes "es = [SetLoadProgress 10, Fetch u] @ map SetLoadProgress xs @ rest @ catch_block err"
    and "rest = [ResponseJson] \<or> rest = [SetLoadProgress 95, JSONParse bs]"
  shows "error (run_effects es Home_init)
           = Some (case err of ErrorObject m \<Rightarrow> m | OtherValue \<Rightarrow> ''Failed to load data'')"
    and "\<not> loading (run_effects es Home_init)"
    and "data (run_effects es Home_init) = None"
    and "requests es = [u]" and "datasets_set es = []"
  using assms(2) unfolding assms(1)
  by (auto simp: run_effects_append run_effects_Cons run_effects_Nil run_reports_only
      requests_append datasets_set_append Home_init_def)

text \<open>
  C7. A non-success status ends the load with the error message
  \<open>Failed to load mesh data: <status>\<close>; a payload that does not parse ends it with the
  parser's message. In both cases one request was issued and none follows, the error cell
  is set and \<open>loading\<close> cleared, so that \<^verbatim>\<open>Home\<close> renders the error (a non-empty
  message), and no dataset is stored.
\<close>

theorem load_failure_reported:
  "(\<not> ok r \<longrightarrow>
      loadData parse (Inr r) =
        [SetLoadProgress 10, Fetch ''/data/mesh_data.json'',
         ConsoleError (ErrorObject (''Failed to load mesh data: '' @ string_of_nat (status r))),
         SetError (''Failed to load mesh data: '' @ string_of_nat (status r)),
         SetLoading False]
      \<and> error (after_load parse (Inr r))
          = Some (''Failed to load mesh data: '' @ string_of_nat (status r))
      \<and> \<not> loading (after_load parse (Inr r))
      \<and> data (after_load parse (Inr r)) = None
      \<and> requests (loadData parse (Inr r)) = [''/data/mesh_data.json'']
      \<and> datasets_set (loadData parse (Inr r)) = []
      \<and> Home_render (after_load parse (Inr r))
          = Some (ErrorScreen (''Failed to load mesh data: '' @ string_of_nat (status r))))
   \<and> (ok r \<and> parse (concat (body r)) = Inl (ErrorObject m) \<longrightarrow>
      error (after_load parse (Inr r)) = Some m
      \<and> \<not> loading (after_load parse (Inr r))
      \<and> data (after_load parse (Inr r)) = None
      \<and> requests (loadData parse (Inr r)) = [''/data/mesh_data.json'']
      \<and> datasets_set (loadData parse (Inr r)) = []
      \<and> (m \<noteq> [] \<longrightarrow> Home_render (after_load parse (Inr r)) = Some (ErrorScreen m)))"
proof (intro conjI impI)
  assume nok: "\<not> ok r"
  let ?msg = "''Failed to load mesh data: '' @ string_of_nat (status r)"
  show eq: "loadData parse (Inr r) =
        [SetLoadProgress 10, Fetch ''/data/mesh_data.json'', ConsoleError (ErrorObject ?msg),
         SetError ?msg, SetLoading False]"
    using nok by (simp add: loadData_def loadData_try_def)
  show "error (after_load parse (Inr r)) = Some ?msg"
    unfolding after_load_def eq by (simp add: run_effects_def)
  show "\<not> loading (after_load parse (Inr r))"
    unfolding after_load_def eq by (simp add: run_effects_def)
  show "data (after_load parse (Inr r)) = None"
    unfolding after_load_def eq by (simp add: run_effects_def Home_init_def)
  show "requests (loadData parse (Inr r)) = [''/data/mesh_data.json'']"
    unfolding eq by simp
  show "datasets_set (loadData parse (Inr r)) = []"
    unfolding eq by simp
  show "Home_render (after_load parse (Inr r)) = Some (ErrorScreen ?msg)"
    unfolding after_load_def eq by (simp add: run_effects_def Home_render_def)
next
  assume a: "ok r \<and> parse (concat (body r)) = Inl (ErrorObject m)"
  then obtain xs rest where es: "loadData parse (Inr r) =
            [SetLoadProgress 10, Fetch ''/data/mesh_data.json''] @ map SetLoadProgress xs @ rest
              @ catch_block (ErrorObject m)"
    and rest: "rest = [ResponseJson] \<or> rest = [SetLoadProgress 95, JSONParse (concat (body r))]"
    using failure_effects [of r parse "ErrorObject m"] by blast
  note st = failure_state [OF es rest]
  show e: "error (after_load parse (Inr r)) = Some m"
    using st(1) by (simp add: after_load_def)
  show l: "\<not> loading (after_load parse (Inr r))"
    using st(2) by (simp add: after_load_def)
  show "data (after_load parse (Inr r)) = None"
    using st(3) by (simp add: after_load_def)
  show "requests (loadData parse (Inr r)) = [''/data/mesh_data.json'']"
    using st(4) .
  show "datasets_set (loadData parse (Inr r)) = []"
    using st(5) .
  show "Home_render (after_load parse (Inr r)) = Some (ErrorScreen m)" if "m \<noteq> []"
    using e l that by (simp add: Home_render_def)
qed

theorem load_failure_reported_witness:
  "\<not> ok missing_response
   \<and> error (after_load sample_parse (Inr missing_response))
       = Some ''Failed to load mesh data: 404''
   \<and> Home_render (after_load sample_parse (Inr missing_response))
       = Some (ErrorScreen ''Failed to load mesh data: 404'')
   \<and> data (after_load sample_parse (Inr missing_response)) = None
   \<and> ok truncated_response
   \<and> sample_parse (concat (body truncated_response))
       = Inl (ErrorObject ''Unexpected end of JSON input'')
   \<and> error (after_load sample_parse (Inr truncated_response))
       = Some ''Unexpected end of JSON input''
   \<and> Home_render (after_load sample_parse (Inr truncated_response))
       = Some (ErrorScreen ''Unexpected end of JSON input'')
   \<and> \<not> loading (after_load sample_parse (Inr truncated_response))
   \<and> data (after_load sample_parse (Inr truncated_response)) = None
   \<and> requests (loadData sample_parse (Inr truncated_response)) = [''/data/mesh_data.json'']"
proof -
  have h: "\<not> ok missing_response" "status missing_response = 404" "ok truncated_response"
    by (simp_all add: missing_response_def truncated_response_def)
  from load_failure_reported [of missing_response sample_parse]
    load_failure_reported [of truncated_response sample_parse "''Unexpected end of JSON input''"]
    h sample_parse_payload(3)
  show ?thesis by simp
qed


end
